theory Spec2Isabelle
  imports Complex_Main "HOL-Library.AList"
begin

section \<open>The page (portfolio-frontend/src/app/page.tsx)\<close>

text \<open>
  Amounts are JavaScript numbers in the source. A field holds the exact value of its
  number, a rational. The page's own arithmetic on amounts (the three aggregate totals,
  which add IEEE doubles) is not part of this theory: what is modelled stores, compares
  and looks up amounts, and adds none.
  Timestamps are milliseconds since the epoch, as integers.
\<close>

subsection \<open>Data\<close>

text \<open>The interface WalletData, field for field.\<close>

record WalletData =
  proxy_address :: string
  usdc_balance :: rat
  positions_value :: rat
  portfolio_total :: rat
  last_updated :: int

text \<open>
  The interface HistoryEntry. The field wallets is a JavaScript record from strings to
  numbers, read by key; it is a partial map here.
\<close>

record HistoryEntry =
  timestamp :: int
  total :: rat
  wallets :: "string \<rightharpoonup> rat"

text \<open>
  The interface WalletConfig. Its proxy_address field is named config_proxy_address,
  since a record field name is global.
\<close>

record WalletConfig =
  wallet_id :: string
  name :: string
  config_proxy_address :: string

subsection \<open>Requests and responses\<close>

datatype http_verb = GET | POST

record request =
  verb :: http_verb
  url :: string

text \<open>
  \<^verbatim>\<open>const API_BASE = process.env.NEXT_PUBLIC_API_URL || 'http://localhost:8405'\<close>.
  The argument is the environment variable (None when it is not set); the empty string is
  falsy, so it gives the default too.
\<close>

definition API_BASE :: "string option \<Rightarrow> string" where
  "API_BASE env =
     (case env of
        None \<Rightarrow> ''http://localhost:8405''
      | Some u \<Rightarrow> if u = [] then ''http://localhost:8405'' else u)"

text \<open>
  Every call of fetch in the page has the URL as its only argument. A fetch without an
  init object sends a GET request.
\<close>

definition fetch :: "string \<Rightarrow> request" where
  "fetch u = \<lparr>verb = GET, url = u\<rparr>"

text \<open>
  What the page sees of one request: the promise of fetch rejects (Rejected), or it
  gives a response with its ok flag and a body; the body is None when
  \<^verbatim>\<open>res.json()\<close> rejects. The body of the cached and of the refresh
  endpoint is read at one field only (\<^verbatim>\<open>data.wallets\<close>,
  \<^verbatim>\<open>data.data\<close>), so it is modelled as that field: None when the field
  is falsy (absent, null).
\<close>

datatype 'a response = Rejected | Response bool "'a option"

text \<open>\<^verbatim>\<open>x || []\<close> for an optional array.\<close>

fun or_empty :: "'a list option \<Rightarrow> 'a list" where
  "or_empty None = []"
| "or_empty (Some xs) = xs"

subsection \<open>The state of the page\<close>

text \<open>
  The state variables of the component Home that the data flow uses. The variable
  wallets is the field cur_wallets (the name wallets is a field of HistoryEntry).
  Three fields record effects: console_error the calls of console.error, sent the
  requests issued so far, and in_flight counts the calls of refreshData that have started
  and have not reached their finally block.
\<close>

datatype log_line = LoadCachedFailed | RefreshFailed

record page =
  cur_wallets :: "WalletData list"
  walletConfigs :: "WalletConfig list"
  history :: "HistoryEntry list"
  loading :: bool
  selectedRange :: string
  lastUpdated :: "int option"
  console_error :: "log_line list"
  sent :: "request list"
  in_flight :: nat

definition initial_page :: page where
  "initial_page =
     \<lparr>cur_wallets = [], walletConfigs = [], history = [], loading = False,
      selectedRange = ''1h'', lastUpdated = None, console_error = [], sent = [],
      in_flight = 0\<rparr>"

text \<open>
  The body of a try block is a chain of steps, each of which may throw: Inl is the state
  at the throw, Inr the state when the step returns.
\<close>

fun and_then :: "page + page \<Rightarrow> (page \<Rightarrow> page + page) \<Rightarrow> page + page" where
  "and_then (Inl p) f = Inl p"
| "and_then (Inr p) f = f p"

fun caught :: "log_line \<Rightarrow> page + page \<Rightarrow> page" where
  "caught l (Inl p) = p\<lparr>console_error := console_error p @ [l]\<rparr>"
| "caught l (Inr p) = p"

subsection \<open>loadCachedData\<close>

text \<open>\<^verbatim>\<open>if (configRes.ok) { setWalletConfigs(await configRes.json()) }\<close>\<close>

definition use_configs :: "WalletConfig list response \<Rightarrow> page \<Rightarrow> page + page" where
  "use_configs configRes p =
     (case configRes of
        Rejected \<Rightarrow> Inl p
      | Response ok body \<Rightarrow>
          if ok then (case body of None \<Rightarrow> Inl p | Some cs \<Rightarrow> Inr (p\<lparr>walletConfigs := cs\<rparr>))
          else Inr p)"

text \<open>
  The block under \<^verbatim>\<open>if (cachedRes.ok)\<close>: the wallet list is
  \<^verbatim>\<open>data.wallets || []\<close>, and the time of the last update is the maximum of
  last_updated, computed only for a list that is not empty.
\<close>

definition use_cached :: "WalletData list option response \<Rightarrow> page \<Rightarrow> page + page" where
  "use_cached cachedRes p =
     (case cachedRes of
        Rejected \<Rightarrow> Inl p
      | Response ok body \<Rightarrow>
          if ok then
            (case body of
               None \<Rightarrow> Inl p
             | Some data_wallets \<Rightarrow>
                 let walletList = or_empty data_wallets;
                     p1 = p\<lparr>cur_wallets := walletList\<rparr>
                 in Inr (if length walletList > 0
                         then p1\<lparr>lastUpdated := Some (Max (set (map last_updated walletList)))\<rparr>
                         else p1))
          else Inr p)"

text \<open>\<^verbatim>\<open>if (historyRes.ok) { setHistory(await historyRes.json()) }\<close>\<close>

definition use_history :: "HistoryEntry list response \<Rightarrow> page \<Rightarrow> page + page" where
  "use_history historyRes p =
     (case historyRes of
        Rejected \<Rightarrow> Inl p
      | Response ok body \<Rightarrow>
          if ok then (case body of None \<Rightarrow> Inl p | Some h \<Rightarrow> Inr (p\<lparr>history := h\<rparr>))
          else Inr p)"

text \<open>
  The three requests are issued together (Promise.all); when one of them rejects the
  catch block runs and no state variable is set.
\<close>

definition loadCachedData ::
  "string option \<Rightarrow> WalletConfig list response \<Rightarrow> WalletData list option response \<Rightarrow>
   HistoryEntry list response \<Rightarrow> page \<Rightarrow> page" where
  "loadCachedData env configRes cachedRes historyRes p =
     (let p0 = p\<lparr>sent := sent p @
                  [fetch (API_BASE env @ ''/api/wallets''),
                   fetch (API_BASE env @ ''/api/portfolio/cached''),
                   fetch (API_BASE env @ ''/api/portfolio/history'')]\<rparr>
      in caught LoadCachedFailed
           (if configRes = Rejected \<or> cachedRes = Rejected \<or> historyRes = Rejected
            then Inl p0
            else and_then (and_then (use_configs configRes p0) (use_cached cachedRes))
                   (use_history historyRes)))"

subsection \<open>refreshData\<close>

text \<open>
  refreshData up to its first await: \<^verbatim>\<open>setLoading(true)\<close> and the request
  \<^verbatim>\<open>fetch(`${API_BASE}/api/portfolio/refresh`)\<close>.
\<close>

definition refreshData_begin :: "string option \<Rightarrow> page \<Rightarrow> page" where
  "refreshData_begin env p =
     p\<lparr>loading := True,
       sent := sent p @ [fetch (API_BASE env @ ''/api/portfolio/refresh'')],
       in_flight := in_flight p + 1\<rparr>"

text \<open>
  The rest of the try block, given the response to the refresh request, the time
  \<^verbatim>\<open>new Date()\<close> and the response to the history request (which is sent only
  when the refresh response is ok and its body parses).
\<close>

definition use_refresh ::
  "string option \<Rightarrow> int \<Rightarrow> WalletData list option response \<Rightarrow> HistoryEntry list response \<Rightarrow>
   page \<Rightarrow> page + page" where
  "use_refresh env now refreshRes historyRes p =
     (case refreshRes of
        Rejected \<Rightarrow> Inl p
      | Response ok body \<Rightarrow>
          if ok then
            (case body of
               None \<Rightarrow> Inl p
             | Some data_data \<Rightarrow>
                 use_history historyRes
                   (p\<lparr>cur_wallets := or_empty data_data, lastUpdated := Some now,
                      sent := sent p @ [fetch (API_BASE env @ ''/api/portfolio/history'')]\<rparr>))
          else Inr p)"

text \<open>The catch block, then the finally block with \<^verbatim>\<open>setLoading(false)\<close>.\<close>

definition refreshData_settle ::
  "string option \<Rightarrow> int \<Rightarrow> WalletData list option response \<Rightarrow> HistoryEntry list response \<Rightarrow>
   page \<Rightarrow> page" where
  "refreshData_settle env now refreshRes historyRes p =
     (let p1 = caught RefreshFailed (use_refresh env now refreshRes historyRes p)
      in p1\<lparr>loading := False, in_flight := in_flight p1 - 1\<rparr>)"

definition refreshData ::
  "string option \<Rightarrow> int \<Rightarrow> WalletData list option response \<Rightarrow> HistoryEntry list response \<Rightarrow>
   page \<Rightarrow> page" where
  "refreshData env now refreshRes historyRes p =
     refreshData_settle env now refreshRes historyRes (refreshData_begin env p)"

subsection \<open>What happens to the page\<close>

text \<open>
  The events of the page, interleaved as the JavaScript event loop runs them:
  the mount effect calls loadCachedData (modelled with its responses, in one step);
  the refresh button calls refreshData, and is disabled while loading is true
  (\<^verbatim>\<open>disabled={loading}\<close>), so a click then calls nothing;
  the timer of \<^verbatim>\<open>setInterval(refreshData, 10 * 60 * 1000)\<close> calls refreshData
  whatever the state;
  a call of refreshData that is waiting for its response resumes and runs to its
  finally block; a time range button sets selectedRange.
\<close>

datatype event =
  CachedDataLoads "WalletConfig list response" "WalletData list option response"
    "HistoryEntry list response"
| ClickRefresh
| TimerTick
| RefreshSettles int "WalletData list option response" "HistoryEntry list response"
| SelectRange string

fun react :: "string option \<Rightarrow> page \<Rightarrow> event \<Rightarrow> page" where
  "react env p (CachedDataLoads configRes cachedRes historyRes) =
     loadCachedData env configRes cachedRes historyRes p"
| "react env p ClickRefresh = (if loading p then p else refreshData_begin env p)"
| "react env p TimerTick = refreshData_begin env p"
| "react env p (RefreshSettles now refreshRes historyRes) =
     (if in_flight p = 0 then p else refreshData_settle env now refreshRes historyRes p)"
| "react env p (SelectRange l) = p\<lparr>selectedRange := l\<rparr>"

definition run_page :: "string option \<Rightarrow> event list \<Rightarrow> page" where
  "run_page env evs = foldl (react env) initial_page evs"

text \<open>The wallet samples an event delivers to the page.\<close>

fun response_samples :: "WalletData list option response \<Rightarrow> WalletData list" where
  "response_samples Rejected = []"
| "response_samples (Response ok None) = []"
| "response_samples (Response ok (Some d)) = or_empty d"

fun event_samples :: "event \<Rightarrow> WalletData list" where
  "event_samples (CachedDataLoads configRes cachedRes historyRes) = response_samples cachedRes"
| "event_samples (RefreshSettles now refreshRes historyRes) = response_samples refreshRes"
| "event_samples ClickRefresh = []"
| "event_samples TimerTick = []"
| "event_samples (SelectRange l) = []"

definition wallet_consistent :: "WalletData \<Rightarrow> bool" where
  "wallet_consistent w = (portfolio_total w = usdc_balance w + positions_value w)"

subsection \<open>The chart\<close>

definition TIME_RANGES :: "(string \<times> int) list" where
  "TIME_RANGES =
     [(''10m'', 10 * 60 * 1000), (''30m'', 30 * 60 * 1000), (''1h'', 60 * 60 * 1000),
      (''1D'', 24 * 60 * 60 * 1000), (''3D'', 3 * 24 * 60 * 60 * 1000),
      (''1W'', 7 * 24 * 60 * 60 * 1000), (''1M'', 30 * 24 * 60 * 60 * 1000)]"

text \<open>filteredHistory; the argument now is \<^verbatim>\<open>Date.now()\<close>.\<close>

definition filteredHistory :: "int \<Rightarrow> string \<Rightarrow> HistoryEntry list \<Rightarrow> HistoryEntry list" where
  "filteredHistory now range_label hs =
     (case find (\<lambda>r. fst r = range_label) TIME_RANGES of
        None \<Rightarrow> hs
      | Some r \<Rightarrow> filter (\<lambda>h. timestamp h \<ge> now - snd r) hs)"

text \<open>
  One element of chartData: the keys time and timestamp, and a key
  \<^verbatim>\<open>wallet_${idx + 1}\<close> for each configured wallet whose proxy address is a key
  of \<^verbatim>\<open>h.wallets\<close>. The keys \<^verbatim>\<open>wallet_k\<close> are the map wallet_series,
  from k. The formatting of the time (toLocaleTimeString) is the parameter fmt.
\<close>

record chart_entry =
  time_label :: string
  entry_timestamp :: int
  wallet_series :: "nat \<rightharpoonup> rat"

text \<open>
  The body of \<^verbatim>\<open>walletConfigs.forEach((config, idx) => ...)\<close>:
  \<^verbatim>\<open>if (h.wallets[config.proxy_address] !== undefined)
  entry[`wallet_${idx + 1}`] = h.wallets[config.proxy_address]\<close>.
\<close>

definition plot_wallet ::
  "HistoryEntry \<Rightarrow> nat \<times> WalletConfig \<Rightarrow> (nat \<rightharpoonup> rat) \<Rightarrow> (nat \<rightharpoonup> rat)" where
  "plot_wallet h ic series =
     (case wallets h (config_proxy_address (snd ic)) of
        None \<Rightarrow> series
      | Some v \<Rightarrow> series(fst ic + 1 \<mapsto> v))"

definition chart_entry_of :: "(int \<Rightarrow> string) \<Rightarrow> WalletConfig list \<Rightarrow> HistoryEntry \<Rightarrow> chart_entry" where
  "chart_entry_of fmt cfgs h =
     \<lparr>time_label = fmt (timestamp h), entry_timestamp = timestamp h,
      wallet_series = fold (plot_wallet h) (enumerate 0 cfgs) Map.empty\<rparr>"

definition chartData :: "(int \<Rightarrow> string) \<Rightarrow> int \<Rightarrow> page \<Rightarrow> chart_entry list" where
  "chartData fmt now p =
     map (chart_entry_of fmt (walletConfigs p))
       (filteredHistory now (selectedRange p) (history p))"

section \<open>The chart history of the architecture notes (section 7.1)\<close>

text \<open>
  \<^verbatim>\<open>prev.slice(-n)\<close> for a positive n: the last n elements, the whole array when it
  has fewer.
\<close>

definition slice_last :: "nat \<Rightarrow> 'a list \<Rightarrow> 'a list" where
  "slice_last n xs = drop (length xs - n) xs"

text \<open>
  The updater passed to setBalanceHistory:
  \<^verbatim>\<open>(prev) => [...prev.slice(-499), newEntry]\<close>.
  The state starts as the empty array (\<^verbatim>\<open>useState([])\<close>).
\<close>

definition setBalanceHistory :: "'a list \<Rightarrow> 'a \<Rightarrow> 'a list" where
  "setBalanceHistory prev newEntry = slice_last 499 prev @ [newEntry]"

definition balanceHistory :: "'a list \<Rightarrow> 'a list" where
  "balanceHistory appended = foldl setBalanceHistory [] appended"

section \<open>The positions provider of the architecture notes (section 3.2)\<close>

text \<open>
  The Python function get_positions_value of backend/utils/cashout_service.py, as the
  notes quote it. A value that \<^verbatim>\<open>resp.json()\<close> gives is None, a bool, an int
  (of any size), a float, a str, a list or a dict with string keys. The floats are the
  type parameter: the theory does not say what a float is, so it holds of the floats of
  Python, with their rounding, their infinities and their NaN (which the decoder gives
  for the tokens NaN and Infinity, and for a number beyond the range). A dict keeps its
  members in document order, and a key written twice has its last value.
\<close>

datatype 'f py_value =
  PyNone
| PyBool bool
| PyInt int
| PyFloat 'f
| PyStr string
| PyList "'f py_value list"
| PyDict "(string \<times> 'f py_value) list"

text \<open>
  The exceptions the function can let through: those of requests.get (a timeout, a
  connection error, another RequestException), of \<^verbatim>\<open>resp.json()\<close> and of
  \<^verbatim>\<open>float(...)\<close>.
\<close>

datatype py_exception =
  RequestsTimeout | RequestsConnectionError | OtherRequestException
| JSONDecodeError | TypeError | ValueError | OverflowError

text \<open>
  The outcome of \<^verbatim>\<open>requests.get(...)\<close>: an exception, or a response with its
  status code and its body; the body is None when \<^verbatim>\<open>resp.json()\<close> cannot
  decode it, and raises.
\<close>

datatype 'f http_reply = Raises py_exception | Reply nat "'f py_value option"

definition dict_get :: "(string \<times> 'f py_value) list \<Rightarrow> string \<Rightarrow> 'f py_value option" where
  "dict_get d k = map_of (rev d) k"

text \<open>\<^verbatim>\<open>d.get(k)\<close>: the value, or None for a missing key.\<close>

definition get_or_None :: "(string \<times> 'f py_value) list \<Rightarrow> string \<Rightarrow> 'f py_value" where
  "get_or_None d k = (case dict_get d k of None \<Rightarrow> PyNone | Some v \<Rightarrow> v)"

text \<open>
  \<^verbatim>\<open>float(x)\<close>. A float is itself. The conversions of the language are the two
  parameters: float_of_int is the float nearest to an int, None for an int beyond the
  range of a float, which raises OverflowError; float_of_str parses a string, None for a
  string that float rejects, which raises ValueError. A bool converts as the int 1 or 0.
  None, a list and a dict raise TypeError.
\<close>

fun py_float ::
  "(int \<Rightarrow> 'f option) \<Rightarrow> (string \<Rightarrow> 'f option) \<Rightarrow> 'f py_value \<Rightarrow> py_exception + 'f" where
  "py_float float_of_int float_of_str (PyFloat f) = Inr f"
| "py_float float_of_int float_of_str (PyInt n) =
     (case float_of_int n of None \<Rightarrow> Inl OverflowError | Some f \<Rightarrow> Inr f)"
| "py_float float_of_int float_of_str (PyBool b) =
     (case float_of_int (if b then 1 else 0) of None \<Rightarrow> Inl OverflowError | Some f \<Rightarrow> Inr f)"
| "py_float float_of_int float_of_str (PyStr s) =
     (case float_of_str s of None \<Rightarrow> Inl ValueError | Some f \<Rightarrow> Inr f)"
| "py_float float_of_int float_of_str PyNone = Inl TypeError"
| "py_float float_of_int float_of_str (PyList xs) = Inl TypeError"
| "py_float float_of_int float_of_str (PyDict d) = Inl TypeError"

text \<open>\<^verbatim>\<open>isinstance(item, dict) and "value" in item\<close>\<close>

fun has_value :: "'f py_value \<Rightarrow> bool" where
  "has_value (PyDict d) = (dict_get d ''value'' \<noteq> None)"
| "has_value _ = False"

text \<open>\<^verbatim>\<open>item.get("value")\<close>, for an item that is a dict.\<close>

fun item_value :: "'f py_value \<Rightarrow> 'f py_value" where
  "item_value (PyDict d) = get_or_None d ''value''"
| "item_value _ = PyNone"

text \<open>
  The loop \<^verbatim>\<open>for item in data\<close>: it returns at the first item that is a dict
  with the key value; when it ends, the function's last line returns None.
\<close>

fun scan_items ::
  "(int \<Rightarrow> 'f option) \<Rightarrow> (string \<Rightarrow> 'f option) \<Rightarrow> 'f py_value list \<Rightarrow>
   py_exception + 'f option" where
  "scan_items float_of_int float_of_str [] = Inr None"
| "scan_items float_of_int float_of_str (item # items) =
     (if has_value item
      then map_sum id Some (py_float float_of_int float_of_str (item_value item))
      else scan_items float_of_int float_of_str items)"

text \<open>A decoded body that is neither a list nor a dict.\<close>

fun is_scalar :: "'f py_value \<Rightarrow> bool" where
  "is_scalar (PyList xs) = False"
| "is_scalar (PyDict d) = False"
| "is_scalar _ = True"

text \<open>
  get_positions_value. The parameter http_get is the request to the data API for an
  address. The result is Inl for an exception that leaves the function, Inr None for the
  return value None, and Inr (Some f) for the float f.
\<close>

definition get_positions_value ::
  "(int \<Rightarrow> 'f option) \<Rightarrow> (string \<Rightarrow> 'f option) \<Rightarrow> (string \<Rightarrow> 'f http_reply) \<Rightarrow> string \<Rightarrow>
   py_exception + 'f option" where
  "get_positions_value float_of_int float_of_str http_get addr =
     (case http_get addr of
        Raises e \<Rightarrow> Inl e
      | Reply status_code body \<Rightarrow>
          if status_code \<noteq> 200 then Inr None
          else (case body of
                  None \<Rightarrow> Inl JSONDecodeError
                | Some (PyList items) \<Rightarrow> scan_items float_of_int float_of_str items
                | Some (PyDict d) \<Rightarrow>
                    map_sum id Some (py_float float_of_int float_of_str (get_or_None d ''value''))
                | Some _ \<Rightarrow> Inr None))"

section \<open>The refresh engine\<close>

text \<open>
  The coordinator, the cache, the history buffer and the snapshot store run in the
  backend, which is not among the sources: the page only calls it. The definitions of
  this section follow the spec (sections 3, 4 and 6).
\<close>

text \<open>Modelled from the spec: the FetchError variants of the two providers (4.1).\<close>

datatype FetchError = Timeout | Unreachable | BadResponse

text \<open>
  Modelled from the spec: WalletConfig of the registry (3), \<open>{id, name, proxyAddress,
  enabled}\<close>; the backend's registry is missing.
\<close>

record RegisteredWallet =
  reg_id :: string
  reg_name :: string
  reg_proxyAddress :: string
  reg_enabled :: bool

text \<open>
  Modelled from the spec: BalanceSample (3) with its stale flag. positionsValue is a
  decimal: every rule of 4.2 that produces a sample gives it a value.
\<close>

record BalanceSample =
  proxyAddress :: string
  usdcBalance :: rat
  positionsValue :: rat
  portfolioTotal :: rat
  observedAt :: int
  stale :: bool

text \<open>Modelled from the spec: HistoryEntry (3), \<open>{timestamp, total, perWallet}\<close>.\<close>

record AggregateEntry =
  entry_at :: int
  entry_total :: rat
  perWallet :: "(string \<times> rat) list"

text \<open>Modelled from the spec: SnapshotRow (3); its generated id is its place in the log.\<close>

record SnapshotRow =
  row_timestamp :: int
  row_proxyAddress :: string
  row_usdcBalance :: rat
  row_positionsValue :: rat
  row_portfolioTotal :: rat

text \<open>Modelled from the spec: RefreshOutcome (4.2, step 6).\<close>

record RefreshOutcome =
  succeeded :: int
  failed :: int
  outcome_timestamp :: int

text \<open>
  Modelled from the spec: the state the coordinator commits to: the PortfolioCache (one
  entry per wallet id, with the time of the last commit), the HistoryBuffer and the
  SnapshotStore; initialised empty at startup (9).
\<close>

record engine =
  cache :: "(string \<times> BalanceSample) list"
  lastRefreshTime :: "int option"
  historyBuffer :: "AggregateEntry list"
  snapshotStore :: "SnapshotRow list"

text \<open>Modelled from the spec: the state at startup, with nothing committed (9).\<close>

definition empty_engine :: engine where
  "empty_engine = \<lparr>cache = [], lastRefreshTime = None, historyBuffer = [], snapshotStore = []\<rparr>"

text \<open>Modelled from the spec: PortfolioCache.get (4.3); the backend's cache is missing.\<close>

definition get :: "engine \<Rightarrow> string \<Rightarrow> BalanceSample option" where
  "get e walletId = map_of (cache e) walletId"

text \<open>Modelled from the spec: PortfolioCache.getAll (4.3).\<close>

definition getAll :: "engine \<Rightarrow> BalanceSample list" where
  "getAll e = map snd (cache e)"

text \<open>
  Modelled from the spec: step 4 of refresh (4.2), the merge of a wallet's two results,
  Inl a failure and Inr a value. Both succeed: a new sample, total recomputed, not
  stale. One fails: the previous cached value for the failed leg, the total recomputed
  from the mix, stale. Both fail: no sample. The spec gives no rule for one failed leg
  without a previous entry, nor for two failed legs with one; no sample is produced
  there either, and commit leaves the wallet's entry as it is.
\<close>

definition combine ::
  "BalanceSample option \<Rightarrow> string \<Rightarrow> int \<Rightarrow> FetchError + rat \<Rightarrow> FetchError + rat \<Rightarrow>
   BalanceSample option" where
  "combine previous address now balance positions =
     (case (balance, positions) of
        (Inr b, Inr p) \<Rightarrow>
          Some \<lparr>proxyAddress = address, usdcBalance = b, positionsValue = p,
                portfolioTotal = b + p, observedAt = now, stale = False\<rparr>
      | (Inr b, Inl e) \<Rightarrow>
          (case previous of
             None \<Rightarrow> None
           | Some old \<Rightarrow>
               Some \<lparr>proxyAddress = address, usdcBalance = b, positionsValue = positionsValue old,
                     portfolioTotal = b + positionsValue old, observedAt = now, stale = True\<rparr>)
      | (Inl e, Inr p) \<Rightarrow>
          (case previous of
             None \<Rightarrow> None
           | Some old \<Rightarrow>
               Some \<lparr>proxyAddress = address, usdcBalance = usdcBalance old, positionsValue = p,
                     portfolioTotal = usdcBalance old + p, observedAt = now, stale = True\<rparr>)
      | (Inl e, Inl e') \<Rightarrow> None)"

text \<open>
  Modelled from the spec: steps 2 to 4 for one wallet: both providers are asked for the
  wallet's proxy address, and the results are merged with the wallet's cache entry.
\<close>

definition sample_for ::
  "engine \<Rightarrow> int \<Rightarrow> (string \<Rightarrow> FetchError + rat) \<Rightarrow> (string \<Rightarrow> FetchError + rat) \<Rightarrow>
   RegisteredWallet \<Rightarrow> (string \<times> BalanceSample) option" where
  "sample_for e now balanceProvider positionProvider w =
     map_option (Pair (reg_id w))
       (combine (get e (reg_id w)) (reg_proxyAddress w) now
          (balanceProvider (reg_proxyAddress w)) (positionProvider (reg_proxyAddress w)))"

text \<open>
  Modelled from the spec: the samples of one cycle, over every enabled wallet of the
  registry, each keyed by its wallet id.
\<close>

definition produced ::
  "RegisteredWallet list \<Rightarrow> engine \<Rightarrow> int \<Rightarrow> (string \<Rightarrow> FetchError + rat) \<Rightarrow>
   (string \<Rightarrow> FetchError + rat) \<Rightarrow> (string \<times> BalanceSample) list" where
  "produced registry e now balanceProvider positionProvider =
     List.map_filter (sample_for e now balanceProvider positionProvider)
       (filter reg_enabled registry)"

text \<open>Modelled from the spec: HistoryBuffer.append (4.4), evicting the oldest on overflow.\<close>

definition buffer_append :: "nat \<Rightarrow> 'a list \<Rightarrow> 'a \<Rightarrow> 'a list" where
  "buffer_append capacity entries entry =
     drop (length (entries @ [entry]) - capacity) (entries @ [entry])"

text \<open>Modelled from the spec: the SnapshotRow of a sample.\<close>

definition row_of :: "int \<Rightarrow> BalanceSample \<Rightarrow> SnapshotRow" where
  "row_of now s =
     \<lparr>row_timestamp = now, row_proxyAddress = proxyAddress s, row_usdcBalance = usdcBalance s,
      row_positionsValue = positionsValue s, row_portfolioTotal = portfolioTotal s\<rparr>"

text \<open>
  Modelled from the spec: step 5, the commit: the cache entries of the wallets that
  produced a sample are replaced, one history entry aggregates the cycle's totals, and
  one snapshot row is written per sample. Persistence failures are not modelled.
\<close>

definition commit :: "nat \<Rightarrow> int \<Rightarrow> (string \<times> BalanceSample) list \<Rightarrow> engine \<Rightarrow> engine" where
  "commit capacity now samples e =
     \<lparr>cache = fold (\<lambda>ks. AList.update (fst ks) (snd ks)) samples (cache e),
      lastRefreshTime = Some now,
      historyBuffer =
        buffer_append capacity (historyBuffer e)
          \<lparr>entry_at = now,
           entry_total = sum_list (map (\<lambda>ks. portfolioTotal (snd ks)) samples),
           perWallet = map (\<lambda>ks. (fst ks, portfolioTotal (snd ks))) samples\<rparr>,
      snapshotStore = snapshotStore e @ map (\<lambda>ks. row_of now (snd ks)) samples\<rparr>"

text \<open>
  Modelled from the spec: whether a sample counts as succeeded. The spec leaves the
  policy open (8, 9): a stale sample counts as failed exactly when stale_is_failure.
\<close>

definition counts_as_succeeded :: "bool \<Rightarrow> BalanceSample \<Rightarrow> bool" where
  "counts_as_succeeded stale_is_failure s = (\<not> (stale_is_failure \<and> stale s))"

text \<open>
  Modelled from the spec: RefreshCoordinator.refresh (4.2), steps 2 to 6 of one cycle, as
  a function of the results the two providers give. Step 1 concerns callers that overlap
  in time and has no counterpart in a function that runs a cycle as one step.
\<close>

definition refresh ::
  "bool \<Rightarrow> nat \<Rightarrow> RegisteredWallet list \<Rightarrow> int \<Rightarrow> (string \<Rightarrow> FetchError + rat) \<Rightarrow>
   (string \<Rightarrow> FetchError + rat) \<Rightarrow> engine \<Rightarrow> engine \<times> RefreshOutcome" where
  "refresh stale_is_failure capacity registry now balanceProvider positionProvider e =
     (let samples = produced registry e now balanceProvider positionProvider;
          n_ok = int (length (filter (\<lambda>ks. counts_as_succeeded stale_is_failure (snd ks)) samples))
      in (commit capacity now samples e,
          \<lparr>succeeded = n_ok,
           failed = int (length (filter reg_enabled registry)) - n_ok,
           outcome_timestamp = now\<rparr>))"

text \<open>
  Modelled from the spec: the life of the engine: it starts empty and runs one cycle
  after the other, each with its time and with what the providers answer in it.
\<close>

record cycle =
  cycle_now :: int
  cycle_balances :: "string \<Rightarrow> FetchError + rat"
  cycle_positions :: "string \<Rightarrow> FetchError + rat"

text \<open>Modelled from the spec: the engine after a sequence of cycles, from the empty state.\<close>

definition run_engine :: "bool \<Rightarrow> nat \<Rightarrow> RegisteredWallet list \<Rightarrow> cycle list \<Rightarrow> engine" where
  "run_engine stale_is_failure capacity registry cycles =
     foldl (\<lambda>e c. fst (refresh stale_is_failure capacity registry (cycle_now c)
                          (cycle_balances c) (cycle_positions c) e))
       empty_engine cycles"

text \<open>
  Modelled from the spec: the response of GET /api/portfolio/cached (6): the committed
  samples, their three totals and the time of the last refresh.
\<close>

record CachedView =
  view_wallets :: "BalanceSample list"
  view_totalPortfolio :: rat
  view_totalUsdc :: rat
  view_totalPositions :: rat
  view_lastRefreshTime :: "int option"

text \<open>Modelled from the spec: the cached view of an engine state; it makes no provider call.\<close>

definition cached_view :: "engine \<Rightarrow> CachedView" where
  "cached_view e =
     \<lparr>view_wallets = getAll e,
      view_totalPortfolio = sum_list (map portfolioTotal (getAll e)),
      view_totalUsdc = sum_list (map usdcBalance (getAll e)),
      view_totalPositions = sum_list (map positionsValue (getAll e)),
      view_lastRefreshTime = lastRefreshTime e\<rparr>"

text \<open>
  Modelled from the spec: a BalanceSample as the page reads it (the interface
  WalletData), field by field.
\<close>

definition wire :: "BalanceSample \<Rightarrow> WalletData" where
  "wire s =
     \<lparr>proxy_address = proxyAddress s, usdc_balance = usdcBalance s,
      positions_value = positionsValue s, portfolio_total = portfolioTotal s,
      last_updated = observedAt s\<rparr>"

text \<open>
  Modelled from the spec: the member wallets of the response of GET
  /api/portfolio/cached, as the page reads it: the samples of the cached view.
\<close>

definition cached_body :: "engine \<Rightarrow> WalletData list option" where
  "cached_body e = Some (map wire (view_wallets (cached_view e)))"

text \<open>
  Modelled from the spec: the member data of the response of the refresh endpoint, as the
  page reads it. The response of the spec (6) has the members succeeded, failed and
  timestamp and no member data; carries_data allows a response that holds the committed
  samples under data as well.
\<close>

definition refresh_body :: "bool \<Rightarrow> engine \<Rightarrow> WalletData list option" where
  "refresh_body carries_data e = (if carries_data then Some (map wire (getAll e)) else None)"

text \<open>
  How an exchange went (the request failed, the response was not ok, its body did not
  parse, or it arrived), with the body that the backend sent.
\<close>

fun with_body :: "unit response \<Rightarrow> 'b \<Rightarrow> 'b response" where
  "with_body Rejected b = Rejected"
| "with_body (Response ok None) b = Response ok None"
| "with_body (Response ok (Some u)) b = Response ok (Some b)"

text \<open>
  Modelled from the spec: the events of a page whose requests the engine answers. An
  answer is computed from the state the engine is in when it answers, that is after the
  cycles it has run by then; the responses with configurations and with history entries
  carry no samples and are left open.
\<close>

datatype served =
  LoadServed "WalletConfig list response" "unit response" "cycle list"
    "HistoryEntry list response"
| RefreshServed int "unit response" bool "cycle list" "HistoryEntry list response"
| Clicked
| Ticked
| RangeSelected string

text \<open>Modelled from the spec: the page event that a served event is.\<close>

fun page_event :: "bool \<Rightarrow> nat \<Rightarrow> RegisteredWallet list \<Rightarrow> served \<Rightarrow> event" where
  "page_event stale_is_failure capacity registry (LoadServed configRes went cycles historyRes) =
     CachedDataLoads configRes
       (with_body went (cached_body (run_engine stale_is_failure capacity registry cycles)))
       historyRes"
| "page_event stale_is_failure capacity registry
     (RefreshServed now went carries_data cycles historyRes) =
     RefreshSettles now
       (with_body went
          (refresh_body carries_data (run_engine stale_is_failure capacity registry cycles)))
       historyRes"
| "page_event stale_is_failure capacity registry Clicked = ClickRefresh"
| "page_event stale_is_failure capacity registry Ticked = TimerTick"
| "page_event stale_is_failure capacity registry (RangeSelected l) = SelectRange l"

text \<open>Modelled from the spec: the invariant of a BalanceSample (3, 8).\<close>

definition consistent :: "BalanceSample \<Rightarrow> bool" where
  "consistent s = (portfolioTotal s = usdcBalance s + positionsValue s)"

text \<open>Modelled from the spec: the same invariant on a persisted SnapshotRow.\<close>

definition row_consistent :: "SnapshotRow \<Rightarrow> bool" where
  "row_consistent r = (row_portfolioTotal r = row_usdcBalance r + row_positionsValue r)"

text \<open>
  Modelled from the spec: the scenario of section 8, with a third wallet that has no
  cache entry. Wallet W1 has address 0xA, W2 has 0xB, W3 has 0xC. The cache holds a
  sample for W2 only. In the cycle, the balance is 100 and the positions are 50 for 0xA;
  for 0xB the balance request times out and the positions are 25; for 0xC both fail.
\<close>

definition scenario_registry :: "RegisteredWallet list" where
  "scenario_registry =
     [\<lparr>reg_id = ''W1'', reg_name = ''first'', reg_proxyAddress = ''0xA'', reg_enabled = True\<rparr>,
      \<lparr>reg_id = ''W2'', reg_name = ''second'', reg_proxyAddress = ''0xB'', reg_enabled = True\<rparr>,
      \<lparr>reg_id = ''W3'', reg_name = ''third'', reg_proxyAddress = ''0xC'', reg_enabled = True\<rparr>]"

text \<open>Modelled from the spec: the scenario's cache before the cycle, W2 only.\<close>

definition scenario_engine :: engine where
  "scenario_engine =
     \<lparr>cache = [(''W2'', \<lparr>proxyAddress = ''0xB'', usdcBalance = 7, positionsValue = 20,
                           portfolioTotal = 27, observedAt = 0, stale = False\<rparr>)],
      lastRefreshTime = Some 0, historyBuffer = [], snapshotStore = []\<rparr>"

text \<open>Modelled from the spec: the scenario's answers of the balance provider.\<close>

definition scenario_balances :: "string \<Rightarrow> FetchError + rat" where
  "scenario_balances a = (if a = ''0xA'' then Inr 100 else Inl Timeout)"

text \<open>Modelled from the spec: the scenario's answers of the position provider.\<close>

definition scenario_positions :: "string \<Rightarrow> FetchError + rat" where
  "scenario_positions a =
     (if a = ''0xA'' then Inr 50 else if a = ''0xB'' then Inr 25 else Inl Unreachable)"

section \<open>Properties\<close>

subsection \<open>The bounded chart history\<close>

lemma length_setBalanceHistory: "length (setBalanceHistory prev e) \<le> 500"
  by (simp add: setBalanceHistory_def slice_last_def)

lemma balanceHistory_last_500: "balanceHistory es = drop (length es - 500) es"
  unfolding balanceHistory_def
proof (induction es rule: rev_induct)
  case Nil
  show ?case by simp
next
  case (snoc e es)
  have "length es - (length es - 500 + 499) + (length es - 500) = length es - 499"
    by arith
  with snoc show ?case
    by (simp add: setBalanceHistory_def slice_last_def)
qed

text \<open>
  Claim C3. The history never holds more than 500 entries, and once 501 entries have
  been appended the first one is gone: what is left is exactly the 500 entries appended
  after it (so the first is absent whenever it is not also one of the later ones).
\<close>

theorem history_bounded_fifo:
  "length (balanceHistory es) \<le> 500 \<and>
   (length es = 501 \<longrightarrow>
      balanceHistory es = tl es \<and> (distinct es \<longrightarrow> hd es \<notin> set (balanceHistory es)))"
proof -
  have bound: "length (balanceHistory es) \<le> 500"
    by (simp add: balanceHistory_last_500)
  have fifo: "balanceHistory es = tl es \<and> (distinct es \<longrightarrow> hd es \<notin> set (balanceHistory es))"
    if len: "length es = 501"
  proof -
    from len obtain e rest where es: "es = e # rest"
      by (cases es) auto
    with len have "balanceHistory es = rest"
      by (simp add: balanceHistory_last_500)
    with es show ?thesis by simp
  qed
  from bound fifo show ?thesis by blast
qed

theorem history_bounded_fifo_witness:
  "length (balanceHistory [0 ..< 501]) \<le> 500 \<and>
   balanceHistory [0 ..< 501] = tl [0 ..< 501] \<and>
   hd [0 ..< 501] \<notin> set (balanceHistory [0 ..< 501])"
  using history_bounded_fifo [of "[0 ..< 501]"] by simp

subsection \<open>The requests of the page\<close>

lemma sent_and_then_history:
  "use_history h p = Inl q \<or> use_history h p = Inr q \<Longrightarrow> sent q = sent p"
  by (auto simp: use_history_def split: response.splits option.splits if_splits)

lemma sent_use_configs:
  "use_configs c p = Inl q \<or> use_configs c p = Inr q \<Longrightarrow> sent q = sent p"
  by (auto simp: use_configs_def split: response.splits option.splits if_splits)

lemma sent_use_cached:
  "use_cached d p = Inl q \<or> use_cached d p = Inr q \<Longrightarrow> sent q = sent p"
  by (auto simp: use_cached_def Let_def split: response.splits option.splits if_splits)

lemma sent_caught: "sent (caught l x) = sent (case x of Inl q \<Rightarrow> q | Inr q \<Rightarrow> q)"
  by (cases x) simp_all

lemma sent_loadCachedData:
  "sent (loadCachedData env c d h p) =
     sent p @ [fetch (API_BASE env @ ''/api/wallets''),
               fetch (API_BASE env @ ''/api/portfolio/cached''),
               fetch (API_BASE env @ ''/api/portfolio/history'')]"
proof -
  let ?p0 = "p\<lparr>sent := sent p @
                  [fetch (API_BASE env @ ''/api/wallets''),
                   fetch (API_BASE env @ ''/api/portfolio/cached''),
                   fetch (API_BASE env @ ''/api/portfolio/history'')]\<rparr>"
  let ?chain = "and_then (and_then (use_configs c ?p0) (use_cached d)) (use_history h)"
  have "sent (case ?chain of Inl q \<Rightarrow> q | Inr q \<Rightarrow> q) = sent ?p0"
  proof (cases "use_configs c ?p0")
    case (Inl q)
    then show ?thesis using sent_use_configs [of c ?p0 q] by simp
  next
    case (Inr q)
    note q = this
    have sq: "sent q = sent ?p0" using sent_use_configs [of c ?p0 q] q by simp
    show ?thesis
    proof (cases "use_cached d q")
      case (Inl q')
      then show ?thesis using q sq sent_use_cached [of d q q'] by simp
    next
      case (Inr q')
      note q' = this
      have sq': "sent q' = sent ?p0" using sent_use_cached [of d q q'] q' sq by simp
      show ?thesis
      proof (cases "use_history h q'")
        case (Inl q'')
        then show ?thesis using q q' sq' sent_and_then_history [of h q' q''] by simp
      next
        case (Inr q'')
        then show ?thesis using q q' sq' sent_and_then_history [of h q' q''] by simp
      qed
    qed
  qed
  then show ?thesis
    by (simp add: loadCachedData_def Let_def sent_caught)
qed

lemma sent_refreshData_settle:
  "sent (refreshData_settle env now r h p) = sent p \<or>
   sent (refreshData_settle env now r h p) =
     sent p @ [fetch (API_BASE env @ ''/api/portfolio/history'')]"
proof -
  let ?x = "use_refresh env now r h p"
  have "sent (case ?x of Inl q \<Rightarrow> q | Inr q \<Rightarrow> q) = sent p \<or>
        sent (case ?x of Inl q \<Rightarrow> q | Inr q \<Rightarrow> q) =
          sent p @ [fetch (API_BASE env @ ''/api/portfolio/history'')]"
  proof (cases r)
    case Rejected
    then show ?thesis by (simp add: use_refresh_def)
  next
    case (Response ok body)
    show ?thesis
    proof (cases "ok \<and> body \<noteq> None")
      case False
      with Response show ?thesis by (auto simp: use_refresh_def)
    next
      case True
      then obtain dd where body: "body = Some dd" and ok: ok by auto
      let ?p1 = "p\<lparr>cur_wallets := or_empty dd, lastUpdated := Some now,
                    sent := sent p @ [fetch (API_BASE env @ ''/api/portfolio/history'')]\<rparr>"
      have x: "?x = use_history h ?p1"
        using Response body ok by (simp add: use_refresh_def)
      show ?thesis
      proof (cases "use_history h ?p1")
        case (Inl q)
        then show ?thesis using x sent_and_then_history [of h ?p1 q] by simp
      next
        case (Inr q)
        then show ?thesis using x sent_and_then_history [of h ?p1 q] by simp
      qed
    qed
  qed
  then show ?thesis
    by (simp add: refreshData_settle_def Let_def sent_caught)
qed

lemma react_sends_get:
  assumes "list_all (\<lambda>r. verb r = GET) (sent p)"
  shows "list_all (\<lambda>r. verb r = GET) (sent (react env p ev))"
proof (cases ev)
  case (CachedDataLoads c d h)
  with assms show ?thesis by (simp add: sent_loadCachedData fetch_def)
next
  case ClickRefresh
  with assms show ?thesis by (simp add: refreshData_begin_def fetch_def)
next
  case TimerTick
  with assms show ?thesis by (simp add: refreshData_begin_def fetch_def)
next
  case (RefreshSettles now r h)
  with assms sent_refreshData_settle [of env now r h p] show ?thesis
    by (auto simp: fetch_def)
next
  case (SelectRange l)
  with assms show ?thesis by simp
qed

lemma run_page_sends_get: "list_all (\<lambda>r. verb r = GET) (sent (run_page env evs))"
  unfolding run_page_def
proof (induction evs rule: rev_induct)
  case Nil
  show ?case by (simp add: initial_page_def)
next
  case (snoc ev evs)
  then show ?case by (simp add: react_sends_get)
qed

text \<open>
  Claim C6, as amended. A refresh is triggered by refreshData, from the button and from
  the timer alike, and its request is a GET of API_BASE/api/portfolio/refresh; no
  request the page ever sends is a POST.
\<close>

theorem refresh_trigger_is_get:
  "sent (refreshData_begin env p) =
     sent p @ [\<lparr>verb = GET, url = API_BASE env @ ''/api/portfolio/refresh''\<rparr>] \<and>
   list_all (\<lambda>r. verb r = GET) (sent (run_page env evs))"
  by (simp add: refreshData_begin_def fetch_def run_page_sends_get)

theorem refresh_trigger_is_not_post:
  "sent (run_page None [ClickRefresh]) =
     [\<lparr>verb = GET, url = ''http://localhost:8405/api/portfolio/refresh''\<rparr>] \<and>
   \<not> list_ex (\<lambda>r. verb r = POST) (sent (run_page None [ClickRefresh]))"
  by (simp add: run_page_def initial_page_def refreshData_begin_def fetch_def API_BASE_def)

subsection \<open>Refreshes in flight\<close>

lemma settle_ends_one_call:
  "in_flight (refreshData_settle env now r h p) = in_flight p - 1 \<and>
   \<not> loading (refreshData_settle env now r h p)"
  by (cases r; cases h)
     (auto simp: refreshData_settle_def use_refresh_def use_history_def Let_def
           split: option.splits)

lemma button_guard_invariant:
  assumes "TimerTick \<notin> set evs"
  shows "in_flight (run_page env evs) \<le> 1 \<and>
         (in_flight (run_page env evs) = 1 \<longrightarrow> loading (run_page env evs))"
  using assms unfolding run_page_def
proof (induction evs rule: rev_induct)
  case Nil
  show ?case by (simp add: initial_page_def)
next
  case (snoc ev evs)
  let ?p = "foldl (react env) initial_page evs"
  from snoc have inv: "in_flight ?p \<le> 1" "in_flight ?p = 1 \<longrightarrow> loading ?p"
    and ev: "ev \<noteq> TimerTick"
    by auto
  have keep: "in_flight (loadCachedData env c d h ?p) = in_flight ?p \<and>
              loading (loadCachedData env c d h ?p) = loading ?p" for c d h
    by (cases c; cases d; cases h)
       (auto simp: loadCachedData_def use_configs_def use_cached_def use_history_def Let_def
             split: option.splits)
  show ?case
  proof (cases ev)
    case (CachedDataLoads c d h)
    with inv keep [of c d h] show ?thesis by simp
  next
    case ClickRefresh
    with inv show ?thesis by (auto simp: refreshData_begin_def)
  next
    case TimerTick
    with ev show ?thesis by simp
  next
    case (RefreshSettles now r h)
    with inv settle_ends_one_call [of env now r h ?p] show ?thesis by auto
  next
    case (SelectRange l)
    with inv show ?thesis by simp
  qed
qed

lemma button_alone_never_overlaps:
  "TimerTick \<notin> set evs \<Longrightarrow> in_flight (run_page env evs) \<le> 1"
  using button_guard_invariant by blast

text \<open>
  The timer has no such guard: a click on the refresh button followed by a tick of the
  timer, before the first call has settled, leaves two calls of refreshData waiting,
  each with its request sent. Whether the two requests make two refresh cycles overlap
  is decided by the backend that serves them.
\<close>

lemma timer_tick_starts_second_call:
  "in_flight (run_page None [ClickRefresh, TimerTick]) = 2 \<and>
   sent (run_page None [ClickRefresh, TimerTick]) =
     [\<lparr>verb = GET, url = ''http://localhost:8405/api/portfolio/refresh''\<rparr>,
      \<lparr>verb = GET, url = ''http://localhost:8405/api/portfolio/refresh''\<rparr>]"
  by (simp add: run_page_def initial_page_def refreshData_begin_def fetch_def API_BASE_def)

subsection \<open>The chart series\<close>

lemma fold_plot_wallet:
  "fold (plot_wallet h) (enumerate n cfgs) series k =
     (if n < k \<and> k \<le> n + length cfgs
      then (case wallets h (config_proxy_address (cfgs ! (k - 1 - n))) of
              None \<Rightarrow> series k | Some v \<Rightarrow> Some v)
      else series k)"
proof (induction cfgs arbitrary: n series)
  case Nil
  show ?case by auto
next
  case (Cons c cfgs)
  have head: "fold (plot_wallet h) (enumerate n (c # cfgs)) series k =
      fold (plot_wallet h) (enumerate (Suc n) cfgs) (plot_wallet h (n, c) series) k"
    by simp
  have first: "plot_wallet h (n, c) series j =
      (if j = n + 1 then (case wallets h (config_proxy_address c) of
                            None \<Rightarrow> series j | Some v \<Rightarrow> Some v)
       else series j)" for j
    by (simp add: plot_wallet_def split: option.splits)
  show ?case
    unfolding head Cons.IH first
    by (auto simp: nth_Cons' split: option.splits)
qed

text \<open>
  Claim C7, as amended. A HistoryEntry has the fields timestamp, total and wallets, and
  the page reads wallets by proxy address: the series of the k-th configured wallet in a
  chart entry is the entry's value under that wallet's proxy address, and is absent when
  the proxy address is not a key.
\<close>

theorem chart_series_by_proxy_address:
  "wallet_series (chart_entry_of fmt cfgs h) k =
     (if 1 \<le> k \<and> k \<le> length cfgs
      then wallets h (config_proxy_address (cfgs ! (k - 1)))
      else None)"
  by (simp add: chart_entry_of_def fold_plot_wallet split: option.splits)

theorem chart_ignores_wallet_id_keys:
  "wallets \<lparr>timestamp = 0, total = 150, wallets = [''1'' \<mapsto> 150]\<rparr>
     (wallet_id \<lparr>wallet_id = ''1'', name = ''1-Sports'', config_proxy_address = ''0xA''\<rparr>)
     = Some 150 \<and>
   wallet_series
     (chart_entry_of (\<lambda>t. [])
        [\<lparr>wallet_id = ''1'', name = ''1-Sports'', config_proxy_address = ''0xA''\<rparr>]
        \<lparr>timestamp = 0, total = 150, wallets = [''1'' \<mapsto> 150]\<rparr>) 1 = None"
  by (simp add: chart_entry_of_def plot_wallet_def)

subsection \<open>The samples the page shows\<close>

lemma shown_after_loadCachedData:
  "set (cur_wallets (loadCachedData env c d h p)) \<subseteq> set (cur_wallets p) \<union> set (response_samples d)"
  by (cases c; cases d; cases h)
     (auto simp: loadCachedData_def use_configs_def use_cached_def use_history_def Let_def
           split: option.splits if_splits)

lemma shown_after_refreshData_settle:
  "set (cur_wallets (refreshData_settle env now r h p)) \<subseteq> set (cur_wallets p) \<union> set (response_samples r)"
  by (cases r; cases h)
     (auto simp: refreshData_settle_def use_refresh_def use_history_def Let_def
           split: option.splits if_splits)

lemma shown_after_react:
  "set (cur_wallets (react env p ev)) \<subseteq> set (cur_wallets p) \<union> set (event_samples ev)"
proof (cases ev)
  case (CachedDataLoads c d h)
  then show ?thesis using shown_after_loadCachedData [of env c d h p] by simp
next
  case (RefreshSettles now r h)
  then show ?thesis using shown_after_refreshData_settle [of env now r h p] by auto
qed (auto simp: refreshData_begin_def)

lemma shown_were_delivered:
  "set (cur_wallets (run_page env evs)) \<subseteq> set (concat (map event_samples evs))"
  unfolding run_page_def
proof (induction evs rule: rev_induct)
  case Nil
  show ?case by (simp add: initial_page_def)
next
  case (snoc ev evs)
  with shown_after_react [of env "foldl (react env) initial_page evs" ev]
  show ?case by auto
qed

subsection \<open>The positions provider\<close>

lemma scan_items_none:
  "\<not> list_ex has_value items \<Longrightarrow> scan_items float_of_int float_of_str items = Inr None"
  by (induction items) auto

lemma scan_items_first:
  "find has_value items = Some (PyDict d) \<Longrightarrow>
   scan_items float_of_int float_of_str items =
     map_sum id Some (py_float float_of_int float_of_str (get_or_None d ''value''))"
  by (induction items) (auto split: if_splits)

text \<open>
  The dict branch has no test for the key: a JSON object without the key value makes
  \<^verbatim>\<open>float(None)\<close> raise, where the list branch skips such an item.
\<close>

lemma object_without_value_raises:
  "get_positions_value float_of_int float_of_str (\<lambda>a. Reply 200 (Some (PyDict []))) addr
     = Inl TypeError"
  by (simp add: get_positions_value_def get_or_None_def dict_get_def)

lemma list_item_without_value_is_skipped:
  "get_positions_value float_of_int float_of_str (\<lambda>a. Reply 200 (Some (PyList [PyDict []]))) addr
     = Inr None"
  by (simp add: get_positions_value_def dict_get_def)

text \<open>
  Claim C9, as amended. get_positions_value turns a response into a float or None:
  None for a status other than 200, for a decoded body that is neither a list nor a
  dict, and for a list with no dict that has the key value. For a dict whose value is a
  number, and for a list whose first dict with the key value holds a number, it returns
  that number as a float: a float as it is, an int converted to the nearest float. It
  has no exception handler: an exception of the request, a body that the decoder
  rejects, and an int beyond the range of a float leave the function as exceptions.
\<close>

theorem positions_value_results:
  "(http_get a = Reply status body \<and> status \<noteq> 200 \<longrightarrow>
      get_positions_value float_of_int float_of_str http_get a = Inr None) \<and>
   (http_get a = Reply 200 (Some j) \<and> is_scalar j \<longrightarrow>
      get_positions_value float_of_int float_of_str http_get a = Inr None) \<and>
   (http_get a = Reply 200 (Some (PyList items)) \<and> \<not> list_ex has_value items \<longrightarrow>
      get_positions_value float_of_int float_of_str http_get a = Inr None) \<and>
   (http_get a = Reply 200 (Some (PyDict d)) \<and> dict_get d ''value'' = Some (PyFloat f) \<longrightarrow>
      get_positions_value float_of_int float_of_str http_get a = Inr (Some f)) \<and>
   (http_get a = Reply 200 (Some (PyDict d)) \<and> dict_get d ''value'' = Some (PyInt n) \<longrightarrow>
      get_positions_value float_of_int float_of_str http_get a =
        (case float_of_int n of None \<Rightarrow> Inl OverflowError | Some g \<Rightarrow> Inr (Some g))) \<and>
   (http_get a = Reply 200 (Some (PyList items)) \<and> find has_value items = Some (PyDict d) \<and>
    dict_get d ''value'' = Some (PyFloat f) \<longrightarrow>
      get_positions_value float_of_int float_of_str http_get a = Inr (Some f)) \<and>
   (http_get a = Reply 200 (Some (PyList items)) \<and> find has_value items = Some (PyDict d) \<and>
    dict_get d ''value'' = Some (PyInt n) \<longrightarrow>
      get_positions_value float_of_int float_of_str http_get a =
        (case float_of_int n of None \<Rightarrow> Inl OverflowError | Some g \<Rightarrow> Inr (Some g))) \<and>
   (http_get a = Raises e \<longrightarrow>
      get_positions_value float_of_int float_of_str http_get a = Inl e) \<and>
   (http_get a = Reply 200 None \<longrightarrow>
      get_positions_value float_of_int float_of_str http_get a = Inl JSONDecodeError)"
proof -
  let ?result = "get_positions_value float_of_int float_of_str http_get a"
  let ?converted = "case float_of_int n of None \<Rightarrow> Inl OverflowError | Some g \<Rightarrow> Inr (Some g)"
  have not200: "?result = Inr None"
    if "http_get a = Reply status body" "status \<noteq> 200"
    using that by (simp add: get_positions_value_def)
  have scalar: "?result = Inr None"
    if "http_get a = Reply 200 (Some j)" "is_scalar j"
    using that by (cases j) (simp_all add: get_positions_value_def)
  have no_item: "?result = Inr None"
    if "http_get a = Reply 200 (Some (PyList items))" "\<not> list_ex has_value items"
    using that by (simp add: get_positions_value_def scan_items_none)
  have dict_float: "?result = Inr (Some f)"
    if "http_get a = Reply 200 (Some (PyDict d))" "dict_get d ''value'' = Some (PyFloat f)"
    using that by (simp add: get_positions_value_def get_or_None_def)
  have dict_int: "?result = ?converted"
    if "http_get a = Reply 200 (Some (PyDict d))" "dict_get d ''value'' = Some (PyInt n)"
    using that by (simp add: get_positions_value_def get_or_None_def split: option.splits)
  have list_float: "?result = Inr (Some f)"
    if "http_get a = Reply 200 (Some (PyList items))" "find has_value items = Some (PyDict d)"
      "dict_get d ''value'' = Some (PyFloat f)"
    using that by (simp add: get_positions_value_def scan_items_first get_or_None_def)
  have list_int: "?result = ?converted"
    if "http_get a = Reply 200 (Some (PyList items))" "find has_value items = Some (PyDict d)"
      "dict_get d ''value'' = Some (PyInt n)"
    using that
    by (simp add: get_positions_value_def scan_items_first get_or_None_def split: option.splits)
  have raised: "?result = Inl e" if "http_get a = Raises e"
    using that by (simp add: get_positions_value_def)
  have undecodable: "?result = Inl JSONDecodeError" if "http_get a = Reply 200 None"
    using that by (simp add: get_positions_value_def)
  from not200 scalar no_item dict_float dict_int list_float list_int raised undecodable
  show ?thesis by blast
qed

theorem positions_value_results_witness:
  "get_positions_value (\<lambda>n. if \<bar>n\<bar> < 2 ^ 1024 then Some (rat_of_int n) else None) (\<lambda>s. None)
     (\<lambda>a. Reply 404 None) ''0xA'' = Inr None \<and>
   get_positions_value (\<lambda>n. if \<bar>n\<bar> < 2 ^ 1024 then Some (rat_of_int n) else None) (\<lambda>s. None)
     (\<lambda>a. Reply 200 (Some (PyStr ''busy''))) ''0xA'' = Inr None \<and>
   get_positions_value (\<lambda>n. if \<bar>n\<bar> < 2 ^ 1024 then Some (rat_of_int n) else None) (\<lambda>s. None)
     (\<lambda>a. Reply 200 (Some (PyList [PyNone, PyDict []]))) ''0xA'' = Inr None \<and>
   get_positions_value (\<lambda>n. if \<bar>n\<bar> < 2 ^ 1024 then Some (rat_of_int n) else None) (\<lambda>s. None)
     (\<lambda>a. Reply 200 (Some (PyDict [(''value'', PyFloat (5 / 2))]))) ''0xA'' = Inr (Some (5 / 2)) \<and>
   get_positions_value (\<lambda>n. if \<bar>n\<bar> < 2 ^ 1024 then Some (rat_of_int n) else None) (\<lambda>s. None)
     (\<lambda>a. Reply 200 (Some (PyDict [(''value'', PyInt 5)]))) ''0xA'' = Inr (Some 5) \<and>
   get_positions_value (\<lambda>n. if \<bar>n\<bar> < 2 ^ 1024 then Some (rat_of_int n) else None) (\<lambda>s. None)
     (\<lambda>a. Reply 200 (Some (PyDict [(''value'', PyInt (2 ^ 1024))]))) ''0xA'' = Inl OverflowError \<and>
   get_positions_value (\<lambda>n. if \<bar>n\<bar> < 2 ^ 1024 then Some (rat_of_int n) else None) (\<lambda>s. None)
     (\<lambda>a. Reply 200 (Some (PyList [PyNone, PyDict [(''value'', PyFloat (5 / 2))]]))) ''0xA''
     = Inr (Some (5 / 2)) \<and>
   get_positions_value (\<lambda>n. if \<bar>n\<bar> < 2 ^ 1024 then Some (rat_of_int n) else None) (\<lambda>s. None)
     (\<lambda>a. Reply 200 (Some (PyList [PyNone, PyDict [(''value'', PyInt 5)]]))) ''0xA''
     = Inr (Some 5) \<and>
   get_positions_value (\<lambda>n. if \<bar>n\<bar> < 2 ^ 1024 then Some (rat_of_int n) else None) (\<lambda>s. None)
     (\<lambda>a. Raises RequestsTimeout) ''0xA'' = Inl RequestsTimeout \<and>
   get_positions_value (\<lambda>n. if \<bar>n\<bar> < 2 ^ 1024 then Some (rat_of_int n) else None) (\<lambda>s. None)
     (\<lambda>a. Reply 200 None) ''0xA'' = Inl JSONDecodeError"
  using
    positions_value_results [where http_get = "\<lambda>a. Reply 404 None" and a = "''0xA''"
      and float_of_int = "\<lambda>n. if \<bar>n\<bar> < 2 ^ 1024 then Some (rat_of_int n) else None"
      and float_of_str = "\<lambda>s. None" and status = 404 and body = None]
    positions_value_results [where http_get = "\<lambda>a. Reply 200 (Some (PyStr ''busy''))"
      and a = "''0xA''"
      and float_of_int = "\<lambda>n. if \<bar>n\<bar> < 2 ^ 1024 then Some (rat_of_int n) else None"
      and float_of_str = "\<lambda>s. None" and j = "PyStr ''busy''"]
    positions_value_results [where http_get = "\<lambda>a. Reply 200 (Some (PyList [PyNone, PyDict []]))"
      and a = "''0xA''"
      and float_of_int = "\<lambda>n. if \<bar>n\<bar> < 2 ^ 1024 then Some (rat_of_int n) else None"
      and float_of_str = "\<lambda>s. None" and items = "[PyNone, PyDict []]"]
    positions_value_results
      [where http_get = "\<lambda>a. Reply 200 (Some (PyDict [(''value'', PyFloat (5 / 2))]))"
      and a = "''0xA''"
      and float_of_int = "\<lambda>n. if \<bar>n\<bar> < 2 ^ 1024 then Some (rat_of_int n) else None"
      and float_of_str = "\<lambda>s. None" and d = "[(''value'', PyFloat (5 / 2))]" and f = "5 / 2"]
    positions_value_results
      [where http_get = "\<lambda>a. Reply 200 (Some (PyDict [(''value'', PyInt 5)]))"
      and a = "''0xA''"
      and float_of_int = "\<lambda>n. if \<bar>n\<bar> < 2 ^ 1024 then Some (rat_of_int n) else None"
      and float_of_str = "\<lambda>s. None" and d = "[(''value'', PyInt 5)]" and n = 5]
    positions_value_results
      [where http_get = "\<lambda>a. Reply 200 (Some (PyDict [(''value'', PyInt (2 ^ 1024))]))"
      and a = "''0xA''"
      and float_of_int = "\<lambda>n. if \<bar>n\<bar> < 2 ^ 1024 then Some (rat_of_int n) else None"
      and float_of_str = "\<lambda>s. None" and d = "[(''value'', PyInt (2 ^ 1024))]" and n = "2 ^ 1024"]
    positions_value_results
      [where http_get = "\<lambda>a. Reply 200 (Some (PyList [PyNone, PyDict [(''value'', PyFloat (5 / 2))]]))"
      and a = "''0xA''"
      and float_of_int = "\<lambda>n. if \<bar>n\<bar> < 2 ^ 1024 then Some (rat_of_int n) else None"
      and float_of_str = "\<lambda>s. None" and items = "[PyNone, PyDict [(''value'', PyFloat (5 / 2))]]"
      and d = "[(''value'', PyFloat (5 / 2))]" and f = "5 / 2"]
    positions_value_results
      [where http_get = "\<lambda>a. Reply 200 (Some (PyList [PyNone, PyDict [(''value'', PyInt 5)]]))"
      and a = "''0xA''"
      and float_of_int = "\<lambda>n. if \<bar>n\<bar> < 2 ^ 1024 then Some (rat_of_int n) else None"
      and float_of_str = "\<lambda>s. None" and items = "[PyNone, PyDict [(''value'', PyInt 5)]]"
      and d = "[(''value'', PyInt 5)]" and n = 5]
    positions_value_results [where http_get = "\<lambda>a. Raises RequestsTimeout" and a = "''0xA''"
      and float_of_int = "\<lambda>n. if \<bar>n\<bar> < 2 ^ 1024 then Some (rat_of_int n) else None"
      and float_of_str = "\<lambda>s. None" and e = RequestsTimeout]
    positions_value_results [where http_get = "\<lambda>a. Reply 200 None" and a = "''0xA''"
      and float_of_int = "\<lambda>n. if \<bar>n\<bar> < 2 ^ 1024 then Some (rat_of_int n) else None"
      and float_of_str = "\<lambda>s. None"]
  by (simp add: dict_get_def)

theorem positions_value_raises_on_undecodable_body:
  "get_positions_value (\<lambda>n. Some (rat_of_int n)) (\<lambda>s. None) (\<lambda>a. Reply 200 None) ''0xA''
     = Inl JSONDecodeError \<and>
   get_positions_value (\<lambda>n. Some (rat_of_int n)) (\<lambda>s. None) (\<lambda>a. Reply 200 None) ''0xA''
     \<noteq> Inr None"
  by (simp add: get_positions_value_def)

subsection \<open>The refresh engine\<close>

lemma combine_consistent: "combine previous a now b p = Some s \<Longrightarrow> consistent s"
  by (auto simp: combine_def consistent_def split: sum.splits option.splits)

lemma in_set_map_filter:
  "y \<in> set (List.map_filter f xs) \<longleftrightarrow> (\<exists>x \<in> set xs. f x = Some y)"
  by (induction xs) (auto split: option.splits)

lemma produced_consistent:
  "ks \<in> set (produced registry e now bp pp) \<Longrightarrow> consistent (snd ks)"
  by (auto simp: produced_def sample_for_def in_set_map_filter dest: combine_consistent)

lemma update_keeps:
  "list_all (\<lambda>ks. P (snd ks)) al \<Longrightarrow> P v \<Longrightarrow> list_all (\<lambda>ks. P (snd ks)) (AList.update k v al)"
  by (induction al) auto

lemma fold_update_keeps:
  "list_all (\<lambda>ks. P (snd ks)) al \<Longrightarrow> list_all (\<lambda>ks. P (snd ks)) samples \<Longrightarrow>
   list_all (\<lambda>ks. P (snd ks)) (fold (\<lambda>ks. AList.update (fst ks) (snd ks)) samples al)"
  by (induction samples arbitrary: al) (auto simp: update_keeps)

lemma refresh_keeps_consistent:
  assumes "list_all consistent (getAll e) \<and> list_all row_consistent (snapshotStore e)"
  shows "list_all consistent (getAll (fst (refresh pol capacity registry now bp pp e))) \<and>
         list_all row_consistent (snapshotStore (fst (refresh pol capacity registry now bp pp e)))"
proof -
  let ?ps = "produced registry e now bp pp"
  have ps: "list_all (\<lambda>ks. consistent (snd ks)) ?ps"
    by (simp add: list_all_iff produced_consistent)
  from assms have c: "list_all (\<lambda>ks. consistent (snd ks)) (cache e)"
    by (simp add: getAll_def list_all_iff)
  have "list_all (\<lambda>ks. consistent (snd ks))
          (fold (\<lambda>ks. AList.update (fst ks) (snd ks)) ?ps (cache e))"
    using c ps by (rule fold_update_keeps)
  moreover have "list_all row_consistent (map (\<lambda>ks. row_of now (snd ks)) ?ps)"
    using ps by (simp add: list_all_iff row_consistent_def row_of_def consistent_def)
  ultimately show ?thesis
    using assms
    by (auto simp: refresh_def commit_def getAll_def Let_def list_all_iff)
qed

lemma run_engine_consistent:
  "list_all consistent (getAll (run_engine pol capacity registry cycles)) \<and>
   list_all row_consistent (snapshotStore (run_engine pol capacity registry cycles))"
  unfolding run_engine_def
proof (induction cycles rule: rev_induct)
  case Nil
  show ?case by (simp add: empty_engine_def getAll_def)
next
  case (snoc c cycles)
  then show ?case by (simp add: refresh_keeps_consistent)
qed

lemma wire_consistent: "wallet_consistent (wire s) = consistent s"
  by (simp add: wallet_consistent_def consistent_def wire_def)

lemma served_samples_consistent:
  "list_all wallet_consistent (event_samples (page_event pol capacity registry sev))"
proof -
  have committed: "list_all wallet_consistent (map wire (getAll (run_engine pol capacity registry cs)))"
    for cs
    using run_engine_consistent [of pol capacity registry cs]
    by (simp add: list_all_iff wire_consistent)
  have body: "list_all wallet_consistent (response_samples (with_body went b))"
    if "list_all wallet_consistent (or_empty b)" for went b
    using that by (cases "(went, b)" rule: with_body.cases) simp_all
  show ?thesis
  proof (cases sev)
    case (LoadServed c went cs h)
    then show ?thesis
      using committed [of cs] by (simp add: body cached_body_def cached_view_def)
  next
    case (RefreshServed now went carries_data cs h)
    then show ?thesis
      using committed [of cs] by (simp add: body refresh_body_def)
  qed simp_all
qed

text \<open>
  Claim C1. Every sample the engine has committed, to the cache and to the snapshot
  store, after any number of refresh cycles with any provider results, has
  portfolioTotal = usdcBalance + positionsValue; and every sample displayed by a page
  whose requests the engine answers, after any sequence of page events, has
  portfolio_total = usdc_balance + positions_value.
\<close>

theorem samples_are_consistent:
  "list_all consistent (getAll (run_engine pol capacity registry cycles)) \<and>
   list_all row_consistent (snapshotStore (run_engine pol capacity registry cycles)) \<and>
   list_all wallet_consistent
     (cur_wallets (run_page env (map (page_event pol capacity registry) served_events)))"
proof -
  have "set (cur_wallets (run_page env (map (page_event pol capacity registry) served_events)))
          \<subseteq> set (concat (map event_samples
                  (map (page_event pol capacity registry) served_events)))"
    by (rule shown_were_delivered)
  moreover have "list_all wallet_consistent
      (concat (map event_samples (map (page_event pol capacity registry) served_events)))"
    using served_samples_consistent [of pol capacity registry]
    by (auto simp: list_all_iff)
  ultimately have "list_all wallet_consistent
      (cur_wallets (run_page env (map (page_event pol capacity registry) served_events)))"
    unfolding list_all_iff by blast
  with run_engine_consistent [of pol capacity registry cycles] show ?thesis
    by blast
qed

text \<open>
  The statement is about samples that exist: after the cycle of the scenario the cache
  holds the sample of W1, and a page that then loads the cached view shows it.
\<close>

lemma committed_and_shown_example:
  "getAll (run_engine False 500 scenario_registry
     [\<lparr>cycle_now = 1000, cycle_balances = scenario_balances,
       cycle_positions = scenario_positions\<rparr>])
   = [\<lparr>proxyAddress = ''0xA'', usdcBalance = 100, positionsValue = 50, portfolioTotal = 150,
       observedAt = 1000, stale = False\<rparr>] \<and>
   cur_wallets (run_page None (map (page_event False 500 scenario_registry)
      [LoadServed (Response True (Some [])) (Response True (Some ()))
         [\<lparr>cycle_now = 1000, cycle_balances = scenario_balances,
           cycle_positions = scenario_positions\<rparr>]
         (Response True (Some []))]))
   = [\<lparr>proxy_address = ''0xA'', usdc_balance = 100, positions_value = 50,
       portfolio_total = 150, last_updated = 1000\<rparr>]"
  by (simp add: run_engine_def refresh_def commit_def produced_def sample_for_def combine_def
      get_def getAll_def empty_engine_def scenario_registry_def scenario_balances_def
      scenario_positions_def run_page_def initial_page_def loadCachedData_def use_configs_def
      use_cached_def use_history_def Let_def cached_body_def cached_view_def wire_def)

lemma map_of_fold_update:
  "distinct (map fst samples) \<Longrightarrow>
   map_of (fold (\<lambda>ks. AList.update (fst ks) (snd ks)) samples al) k =
     (case map_of samples k of Some s \<Rightarrow> Some s | None \<Rightarrow> map_of al k)"
proof (induction samples arbitrary: al)
  case Nil
  show ?case by simp
next
  case (Cons p samples)
  then have "map_of samples (fst p) = None"
    by (simp add: map_of_eq_None_iff)
  with Cons show ?case
    by (cases p) (auto simp: AList.update_conv' split: option.splits)
qed

lemma keys_map_filter:
  assumes "\<And>w y. f w = Some y \<Longrightarrow> fst y = key w"
  shows "fst ` set (List.map_filter f ws) \<subseteq> key ` set ws"
  using assms by (induction ws) (auto split: option.splits)

lemma distinct_keys_map_filter:
  assumes "distinct (map key ws)" and "\<And>w y. f w = Some y \<Longrightarrow> fst y = key w"
  shows "distinct (map fst (List.map_filter f ws))"
  using assms
proof (induction ws)
  case Nil
  show ?case by simp
next
  case (Cons w ws)
  have sub: "fst ` set (List.map_filter f ws) \<subseteq> key ` set ws"
    using Cons.prems(2) by (rule keys_map_filter)
  from Cons have "distinct (map fst (List.map_filter f ws))" by simp
  with Cons.prems sub show ?case
    by (auto split: option.splits)
qed

lemma map_of_map_filter_keyed:
  assumes "distinct (map key ws)" and "\<And>w y. f w = Some y \<Longrightarrow> fst y = key w"
    and "w \<in> set ws"
  shows "map_of (List.map_filter f ws) (key w) = map_option snd (f w)"
  using assms
proof (induction ws)
  case Nil
  then show ?case by simp
next
  case (Cons v ws)
  have sub: "fst ` set (List.map_filter f ws) \<subseteq> key ` set ws"
    using Cons.prems(2) by (rule keys_map_filter)
  show ?case
  proof (cases "w = v")
    case True
    from Cons.prems(1) have "key v \<notin> key ` set ws" by simp
    with sub have "key v \<notin> fst ` set (List.map_filter f ws)" by blast
    then have "map_of (List.map_filter f ws) (key v) = None"
      by (simp add: map_of_eq_None_iff)
    with True Cons.prems(2) show ?thesis
      by (cases "f v") auto
  next
    case False
    with Cons.prems have w: "w \<in> set ws" and ne: "key v \<noteq> key w"
      by auto
    from Cons.IH Cons.prems w
    have "map_of (List.map_filter f ws) (key w) = map_option snd (f w)" by simp
    with ne Cons.prems(2) show ?thesis
      by (cases "f v") (auto simp: fun_upd_def)
  qed
qed

lemma produced_lookup:
  assumes "distinct (map reg_id registry)" and "w \<in> set registry" and "reg_enabled w"
  shows "map_of (produced registry e now bp pp) (reg_id w) =
           combine (get e (reg_id w)) (reg_proxyAddress w) now
             (bp (reg_proxyAddress w)) (pp (reg_proxyAddress w))"
proof -
  have d: "distinct (map reg_id (filter reg_enabled registry))"
    using assms(1) by (rule distinct_map_filter)
  have k: "fst y = reg_id v" if "sample_for e now bp pp v = Some y" for v y
    using that by (auto simp: sample_for_def)
  have m: "w \<in> set (filter reg_enabled registry)"
    using assms by simp
  have "map_of (List.map_filter (sample_for e now bp pp) (filter reg_enabled registry)) (reg_id w)
          = map_option snd (sample_for e now bp pp w)"
    using d k m by (rule map_of_map_filter_keyed)
  then show ?thesis
    by (simp add: produced_def sample_for_def option.map_comp comp_def option.map_ident)
qed

lemma produced_distinct:
  assumes "distinct (map reg_id registry)"
  shows "distinct (map fst (produced registry e now bp pp))"
proof -
  have d: "distinct (map reg_id (filter reg_enabled registry))"
    using assms by (rule distinct_map_filter)
  have k: "fst y = reg_id v" if "sample_for e now bp pp v = Some y" for v y
    using that by (auto simp: sample_for_def)
  show ?thesis
    unfolding produced_def using d k by (rule distinct_keys_map_filter)
qed

lemma refresh_lookup:
  assumes "distinct (map reg_id registry)" and "w \<in> set registry" and "reg_enabled w"
  shows "get (fst (refresh pol capacity registry now bp pp e)) (reg_id w) =
           (case combine (get e (reg_id w)) (reg_proxyAddress w) now
                   (bp (reg_proxyAddress w)) (pp (reg_proxyAddress w)) of
              Some s \<Rightarrow> Some s
            | None \<Rightarrow> get e (reg_id w))"
  using produced_lookup [OF assms, of e now bp pp] produced_distinct [OF assms(1), of e now bp pp]
  unfolding get_def
  by (simp add: refresh_def commit_def Let_def map_of_fold_update)

text \<open>
  Claim C4. In a refresh cycle, for an enabled wallet of a registry with distinct ids:
  when exactly one leg fails and the cache holds a previous sample, the committed sample
  takes the failed leg from the previous sample and the other from the fetch, its total
  is the sum of the two, and it is stale; when both legs fail and the cache holds no
  entry, the wallet is not among the cycle's samples and has no cache entry afterwards.
\<close>

theorem merge_under_failure:
  assumes "distinct (map reg_id registry)" and "w \<in> set registry" and "reg_enabled w"
  shows
    "(get e (reg_id w) = Some old \<and> bp (reg_proxyAddress w) = Inl err \<and>
      pp (reg_proxyAddress w) = Inr p \<longrightarrow>
        get (fst (refresh pol capacity registry now bp pp e)) (reg_id w) =
          Some \<lparr>proxyAddress = reg_proxyAddress w, usdcBalance = usdcBalance old,
                positionsValue = p, portfolioTotal = usdcBalance old + p,
                observedAt = now, stale = True\<rparr>) \<and>
     (get e (reg_id w) = Some old \<and> bp (reg_proxyAddress w) = Inr b \<and>
      pp (reg_proxyAddress w) = Inl err \<longrightarrow>
        get (fst (refresh pol capacity registry now bp pp e)) (reg_id w) =
          Some \<lparr>proxyAddress = reg_proxyAddress w, usdcBalance = b,
                positionsValue = positionsValue old, portfolioTotal = b + positionsValue old,
                observedAt = now, stale = True\<rparr>) \<and>
     (get e (reg_id w) = None \<and> bp (reg_proxyAddress w) = Inl err \<and>
      pp (reg_proxyAddress w) = Inl err' \<longrightarrow>
        reg_id w \<notin> fst ` set (produced registry e now bp pp) \<and>
        get (fst (refresh pol capacity registry now bp pp e)) (reg_id w) = None)"
proof -
  note look = refresh_lookup [OF assms, of pol capacity now bp pp e]
  have balance_failed:
    "get (fst (refresh pol capacity registry now bp pp e)) (reg_id w) =
       Some \<lparr>proxyAddress = reg_proxyAddress w, usdcBalance = usdcBalance old,
             positionsValue = p, portfolioTotal = usdcBalance old + p,
             observedAt = now, stale = True\<rparr>"
    if "get e (reg_id w) = Some old" "bp (reg_proxyAddress w) = Inl err"
      "pp (reg_proxyAddress w) = Inr p"
    using that look by (simp add: combine_def)
  have positions_failed:
    "get (fst (refresh pol capacity registry now bp pp e)) (reg_id w) =
       Some \<lparr>proxyAddress = reg_proxyAddress w, usdcBalance = b,
             positionsValue = positionsValue old, portfolioTotal = b + positionsValue old,
             observedAt = now, stale = True\<rparr>"
    if "get e (reg_id w) = Some old" "bp (reg_proxyAddress w) = Inr b"
      "pp (reg_proxyAddress w) = Inl err"
    using that look by (simp add: combine_def)
  have both_failed:
    "reg_id w \<notin> fst ` set (produced registry e now bp pp) \<and>
     get (fst (refresh pol capacity registry now bp pp e)) (reg_id w) = None"
    if "get e (reg_id w) = None" "bp (reg_proxyAddress w) = Inl err"
      "pp (reg_proxyAddress w) = Inl err'"
  proof -
    have "map_of (produced registry e now bp pp) (reg_id w) = None"
      using that produced_lookup [OF assms, of e now bp pp] by (simp add: combine_def)
    then have "reg_id w \<notin> fst ` set (produced registry e now bp pp)"
      by (simp add: map_of_eq_None_iff)
    moreover have "get (fst (refresh pol capacity registry now bp pp e)) (reg_id w) = None"
      using that look by (simp add: combine_def)
    ultimately show ?thesis by simp
  qed
  from balance_failed positions_failed both_failed show ?thesis
    by blast
qed

theorem merge_under_failure_witness:
  "get (fst (refresh False 500 scenario_registry 1000 scenario_balances scenario_positions
              scenario_engine)) ''W2'' =
     Some \<lparr>proxyAddress = ''0xB'', usdcBalance = 7, positionsValue = 25, portfolioTotal = 32,
           observedAt = 1000, stale = True\<rparr> \<and>
   ''W3'' \<notin> fst ` set (produced scenario_registry scenario_engine 1000 scenario_balances
                          scenario_positions) \<and>
   get (fst (refresh False 500 scenario_registry 1000 scenario_balances scenario_positions
              scenario_engine)) ''W3'' = None"
  using
    merge_under_failure [where registry = scenario_registry and e = scenario_engine
      and w = "\<lparr>reg_id = ''W2'', reg_name = ''second'', reg_proxyAddress = ''0xB'',
                reg_enabled = True\<rparr>"
      and bp = scenario_balances and pp = scenario_positions and now = 1000 and pol = False
      and capacity = 500 and err = Timeout and p = 25
      and old = "\<lparr>proxyAddress = ''0xB'', usdcBalance = 7, positionsValue = 20,
                  portfolioTotal = 27, observedAt = 0, stale = False\<rparr>"]
    merge_under_failure [where registry = scenario_registry and e = scenario_engine
      and w = "\<lparr>reg_id = ''W3'', reg_name = ''third'', reg_proxyAddress = ''0xC'',
                reg_enabled = True\<rparr>"
      and bp = scenario_balances and pp = scenario_positions and now = 1000 and pol = False
      and capacity = 500 and err = Timeout and err' = Unreachable]
  by (simp add: scenario_registry_def scenario_engine_def scenario_balances_def
      scenario_positions_def get_def)

text \<open>
  Claim C8. Before any refresh has been committed the cached view has an empty wallet
  list (and zero totals, and no refresh time); the page that loads it, or a body without
  a wallet list, holds an empty wallet list, logs no error and leaves the time of the
  last update as it was.
\<close>

theorem cached_before_any_refresh:
  "cached_view empty_engine =
     \<lparr>view_wallets = [], view_totalPortfolio = 0, view_totalUsdc = 0, view_totalPositions = 0,
      view_lastRefreshTime = None\<rparr> \<and>
   cur_wallets (loadCachedData env (Response c_ok (Some cs))
      (Response True (Some (Some (map wire (view_wallets (cached_view empty_engine))))))
      (Response h_ok (Some hs)) p) = [] \<and>
   console_error (loadCachedData env (Response c_ok (Some cs))
      (Response True (Some (Some (map wire (view_wallets (cached_view empty_engine))))))
      (Response h_ok (Some hs)) p) = console_error p \<and>
   lastUpdated (loadCachedData env (Response c_ok (Some cs))
      (Response True (Some (Some (map wire (view_wallets (cached_view empty_engine))))))
      (Response h_ok (Some hs)) p) = lastUpdated p \<and>
   cur_wallets (loadCachedData env (Response c_ok (Some cs)) (Response True (Some None))
      (Response h_ok (Some hs)) p) = [] \<and>
   console_error (loadCachedData env (Response c_ok (Some cs)) (Response True (Some None))
      (Response h_ok (Some hs)) p) = console_error p"
  by (simp add: cached_view_def empty_engine_def getAll_def loadCachedData_def use_configs_def
      use_cached_def use_history_def Let_def)

end
